theory Spec2Isabelle
  imports Main "HOL-Library.Word"
begin

unbundle bit_operations_syntax

section \<open>The CIFS block file system (cifs.h, cifs.c)\<close>

text \<open>
  A shallow embedding of the file system of \<^verbatim>\<open>src/cifs\<close>. Machine integers are words
  of the width the C types have on the LP64 target the code is written for:
  \<^verbatim>\<open>unsigned char\<close> is \<open>8 word\<close>, \<^verbatim>\<open>unsigned short\<close> (\<^verbatim>\<open>CIFS_INDEX_TYPE\<close>,
  \<^verbatim>\<open>CIFS_CONTENT_TYPE\<close>) is \<open>16 word\<close>, \<^verbatim>\<open>unsigned long\<close> and
  \<^verbatim>\<open>unsigned long long\<close> are \<open>64 word\<close>. An array handed around as a pointer is the
  list of its bytes; an access outside the array, which C leaves undefined, is the
  result \<open>Inl OutOfBounds\<close>, and a block of the volume read through another view than
  the one it was written through is \<open>Inl Uninterpreted\<close>.
\<close>

subsection \<open>Constants of cifs.h\<close>

type_synonym byte = "8 word"
type_synonym CIFS_INDEX_TYPE = "16 word"
type_synonym CIFS_CONTENT_TYPE = "16 word"

definition CIFS_BLOCK_SIZE :: nat where
  "CIFS_BLOCK_SIZE = 256"

definition CIFS_NUMBER_OF_BLOCKS :: nat where
  "CIFS_NUMBER_OF_BLOCKS = 65535"

definition CIFS_INDEX_SIZE :: nat where
  "CIFS_INDEX_SIZE = 127"

definition CIFS_REGISTRY_SIZE :: nat where
  "CIFS_REGISTRY_SIZE = 65537"

definition CIFS_INITIAL_VALUE_OF_THE_UNIQUE_FILE_IDENTIFIER :: "64 word" where
  "CIFS_INITIAL_VALUE_OF_THE_UNIQUE_FILE_IDENTIFIER = 0"

text \<open>
  \<^verbatim>\<open>#define CIFS_SUPERBLOCK_INDEX CIFS_NUMBER_OF_BLOCKS/8/CIFS_BLOCK_SIZE\<close>: the macro has
  no parentheses, and every use in cifs.c is followed by \<^verbatim>\<open>+ 1\<close>, \<^verbatim>\<open>/ 8\<close> or nothing,
  so each use reads as this value with the operator applied after it.
\<close>

definition CIFS_SUPERBLOCK_INDEX :: nat where
  "CIFS_SUPERBLOCK_INDEX = CIFS_NUMBER_OF_BLOCKS div 8 div CIFS_BLOCK_SIZE"

definition CIFS_INVALID_INDEX :: CIFS_INDEX_TYPE where
  "CIFS_INVALID_INDEX = word_of_nat CIFS_NUMBER_OF_BLOCKS"

datatype fault = OutOfBounds | Uninterpreted

subsection \<open>hash\<close>

text \<open>
  \<^verbatim>\<open>while ((c = *str++) != '\0') hash = ((hash << 5) + hash) ^ c;\<close>
  The string is the list of its bytes; the loop stops at the first zero byte, and the
  end of the list stands for the terminator.
\<close>

fun hash_loop :: "64 word \<Rightarrow> byte list \<Rightarrow> 64 word" where
  "hash_loop h [] = h"
| "hash_loop h (c # str) =
     (if c = 0 then h else hash_loop ((push_bit 5 h + h) XOR ucast c) str)"

definition hash :: "byte list \<Rightarrow> 64 word" where
  "hash str = hash_loop 5381 str mod word_of_nat CIFS_REGISTRY_SIZE"

subsection \<open>The bit allocator\<close>

text \<open>
  \<^verbatim>\<open>while (bitvector[i] == 0xFF) i += 1;\<close>
  The loop has no bound of its own: on an array whose bytes are all \<open>0xFF\<close> it reads
  the byte after the array. The index \<open>i\<close> is an \<^verbatim>\<open>unsigned int\<close>; it is a \<open>nat\<close>
  here, which is the same for every array of fewer than \<open>2 ^ 32\<close> bytes.
\<close>

function scanBytes :: "byte list \<Rightarrow> nat \<Rightarrow> fault + nat" where
  "scanBytes bitvector i =
     (if length bitvector \<le> i then Inl OutOfBounds
      else if bitvector ! i = 0xFF then scanBytes bitvector (i + 1)
      else Inr i)"
  by pat_completeness auto
termination
  by (relation "measure (\<lambda>(bitvector, i). length bitvector - i)") auto

text \<open>
  \<^verbatim>\<open>while (bitvector[i] & mask) { mask >>= 1; ++j; }\<close>
  with \<open>b\<close> the byte \<^verbatim>\<open>bitvector[i]\<close>; \<open>msk\<close> (the source's
  \<^verbatim>\<open>mask\<close>) is an \<^verbatim>\<open>unsigned char\<close>, \<open>j\<close> a \<^verbatim>\<open>CIFS_INDEX_TYPE\<close>.
\<close>

function scanBits :: "byte \<Rightarrow> byte \<Rightarrow> CIFS_INDEX_TYPE \<Rightarrow> CIFS_INDEX_TYPE" where
  "scanBits b msk j =
     (if b AND msk \<noteq> 0 then scanBits b (drop_bit 1 msk) (j + 1) else j)"
  by pat_completeness auto
termination
proof (relation "measure (\<lambda>(b, msk, j). unat msk)")
  show "wf (measure (\<lambda>(b :: byte, msk :: byte, j :: CIFS_INDEX_TYPE). unat msk))"
    by simp
next
  fix b msk :: byte and j :: CIFS_INDEX_TYPE
  assume "b AND msk \<noteq> 0"
  then have "msk \<noteq> 0" by auto
  then have "unat msk \<noteq> 0" by (simp add: unat_eq_0)
  then have "unat msk div 2 < unat msk" by simp
  then show "((b, drop_bit 1 msk, j + 1), (b, msk, j))
      \<in> measure (\<lambda>(b, msk, j). unat msk)"
    by (simp add: drop_bit_eq_div unat_div)
qed

text \<open>
  \<^verbatim>\<open>return (i * 8) + j;\<close> The sum is an \<^verbatim>\<open>unsigned int\<close> converted to the 16-bit
  return type.
\<close>

definition cifsFindFreeBlock :: "byte list \<Rightarrow> fault + CIFS_INDEX_TYPE" where
  "cifsFindFreeBlock bitvector =
     (case scanBytes bitvector 0 of
        Inl e \<Rightarrow> Inl e
      | Inr i \<Rightarrow> Inr (word_of_nat (i * 8 + unat (scanBits (bitvector ! i) 0x80 0))))"

text \<open>
  The three bit operations share their first lines:
  \<^verbatim>\<open>blockIndex = bitIndex / 8; bitShift = bitIndex % 8; mask = 0x80;\<close>
  and differ in the assignment to \<^verbatim>\<open>bitvector[blockIndex]\<close>.
\<close>

definition cifsFlipBit :: "byte list \<Rightarrow> CIFS_INDEX_TYPE \<Rightarrow> fault + byte list" where
  "cifsFlipBit bitvector bitIndex =
     (let blockIndex = bitIndex div 8; bitShift = bitIndex mod 8; msk = (0x80 :: byte) in
      if length bitvector \<le> unat blockIndex then Inl OutOfBounds
      else Inr (bitvector[unat blockIndex :=
                  bitvector ! unat blockIndex XOR drop_bit (unat bitShift) msk]))"

definition cifsSetBit :: "byte list \<Rightarrow> CIFS_INDEX_TYPE \<Rightarrow> fault + byte list" where
  "cifsSetBit bitvector bitIndex =
     (let blockIndex = bitIndex div 8; bitShift = bitIndex mod 8; msk = (0x80 :: byte) in
      if length bitvector \<le> unat blockIndex then Inl OutOfBounds
      else Inr (bitvector[unat blockIndex :=
                  bitvector ! unat blockIndex OR drop_bit (unat bitShift) msk]))"

definition cifsClearBit :: "byte list \<Rightarrow> CIFS_INDEX_TYPE \<Rightarrow> fault + byte list" where
  "cifsClearBit bitvector bitIndex =
     (let blockIndex = bitIndex div 8; bitShift = bitIndex mod 8; msk = (0x80 :: byte) in
      if length bitvector \<le> unat blockIndex then Inl OutOfBounds
      else Inr (bitvector[unat blockIndex :=
                  bitvector ! unat blockIndex AND NOT (drop_bit (unat bitShift) msk)]))"

text \<open>Bit \<open>j\<close> of a byte, counting from the most significant bit as the allocator does.\<close>

definition bitAt :: "byte \<Rightarrow> nat \<Rightarrow> bool" where
  "bitAt b j = (b AND drop_bit j 0x80 \<noteq> 0)"

subsection \<open>Data structures of cifs.h\<close>

definition CIFS_DATA_SIZE :: nat where
  "CIFS_DATA_SIZE = 254"

text \<open>The anonymous \<^verbatim>\<open>enum\<close> of content types, held in a \<^verbatim>\<open>CIFS_CONTENT_TYPE\<close>.\<close>

definition CIFS_FOLDER_CONTENT_TYPE :: CIFS_CONTENT_TYPE where
  "CIFS_FOLDER_CONTENT_TYPE = 0"

definition CIFS_FILE_CONTENT_TYPE :: CIFS_CONTENT_TYPE where
  "CIFS_FILE_CONTENT_TYPE = 1"

definition CIFS_INDEX_CONTENT_TYPE :: CIFS_CONTENT_TYPE where
  "CIFS_INDEX_CONTENT_TYPE = 2"

definition CIFS_DATA_CONTENT_TYPE :: CIFS_CONTENT_TYPE where
  "CIFS_DATA_CONTENT_TYPE = 3"

definition CIFS_INVALID_CONTENT_TYPE :: CIFS_CONTENT_TYPE where
  "CIFS_INVALID_CONTENT_TYPE = 4"

datatype CIFS_ERROR =
    CIFS_NO_ERROR
  | CIFS_ALLOC_ERROR
  | CIFS_DUPLICATE_ERROR
  | CIFS_NOT_FOUND_ERROR
  | CIFS_NOT_EMPTY_ERROR
  | CIFS_ACCESS_ERROR
  | CIFS_WRITE_ERROR
  | CIFS_READ_ERROR
  | CIFS_IN_USE_ERROR
  | CIFS_OPEN_ERROR
  | CIFS_SYSTEM_ERROR

record CIFS_SUPERBLOCK_TYPE =
  cifsNextUniqueIdentifier :: "64 word"
  cifsNumberOfBlocks :: CIFS_INDEX_TYPE
  cifsDataBlockSize :: CIFS_INDEX_TYPE
  cifsRootNodeIndex :: CIFS_INDEX_TYPE

text \<open>
  The field \<^verbatim>\<open>size\<close> of the descriptor is \<open>size_fd\<close> here, and the fields
  \<^verbatim>\<open>identifier\<close>, \<^verbatim>\<open>fileHandle\<close> and \<^verbatim>\<open>pid\<close> of the open-file and process records carry
  a suffix or prefix, since a field name is a constant of the theory. \<^verbatim>\<open>time_t\<close> and
  \<^verbatim>\<open>size_t\<close> are 64-bit, \<^verbatim>\<open>mode_t\<close>, \<^verbatim>\<open>uid_t\<close> and \<^verbatim>\<open>int\<close> 32-bit. The links of the
  conflict resolution and open-file lists are HOL lists.
\<close>

record CIFS_FILE_DESCRIPTOR_TYPE =
  "identifier" :: "64 word"
  type :: CIFS_CONTENT_TYPE
  name :: string
  creationTime :: "64 word"
  lastAccessTime :: "64 word"
  lastModificationTime :: "64 word"
  accessRights :: "32 word"
  owner :: "32 word"
  size_fd :: "64 word"
  block_ref :: CIFS_INDEX_TYPE
  parent_block_ref :: CIFS_INDEX_TYPE
  file_block_ref :: CIFS_INDEX_TYPE

text \<open>
  \<^verbatim>\<open>CIFS_BLOCK_TYPE\<close> is a type tag followed by a union. A block is kept as the view
  it was written through: a descriptor, an index, the superblock buffer that
  \<^verbatim>\<open>cifsWriteBlock\<close> is handed as bytes, or plain bytes. The byte overlay of the union
  members is not part of the model.
\<close>

datatype CIFS_BLOCK_TYPE =
    DescriptorBlock CIFS_CONTENT_TYPE CIFS_FILE_DESCRIPTOR_TYPE
  | IndexBlock CIFS_CONTENT_TYPE "CIFS_INDEX_TYPE list"
  | SuperblockBlock CIFS_SUPERBLOCK_TYPE
  | BytesBlock "byte list"

type_synonym CIFS_FILE_HANDLE_TYPE = "32 word"

record CIFS_REGISTRY_ENTRY_TYPE =
  fileDescriptor :: CIFS_FILE_DESCRIPTOR_TYPE
  parentFileHandle :: CIFS_FILE_HANDLE_TYPE
  referenceCount :: "32 word"

text \<open>A registry slot is the head of a conflict resolution list.\<close>

type_synonym CIFS_REGISTRY = "nat \<Rightarrow> CIFS_REGISTRY_ENTRY_TYPE list"

record OPEN_FILE_TYPE =
  identifier_open :: "64 word"
  fileHandle_open :: CIFS_FILE_HANDLE_TYPE
  processAccessRights :: "32 word"

record CIFS_PROCESS_CONTROL_BLOCK_TYPE =
  pcb_pid :: "32 word"
  openFiles :: "OPEN_FILE_TYPE list"

text \<open>
  \<^verbatim>\<open>CIFS_CONTEXT_TYPE\<close>. The context comes from \<^verbatim>\<open>malloc\<close>; a pointer field that no
  statement has assigned is \<open>None\<close>.
\<close>

record CIFS_CONTEXT_TYPE =
  superblock :: CIFS_SUPERBLOCK_TYPE
  bitvector :: "byte list"
  registry :: "CIFS_REGISTRY option"
  processList :: "CIFS_PROCESS_CONTROL_BLOCK_TYPE list option"

record fuse_context =
  uid :: "32 word"
  gid :: "32 word"
  pid :: "32 word"
  umask :: "32 word"

text \<open>
  What a call takes from outside the program: the FUSE context, the second of
  \<^verbatim>\<open>clock_gettime\<close>, whether \<^verbatim>\<open>malloc\<close> of the context and \<^verbatim>\<open>fopen\<close> of the volume
  succeed, and the indeterminate content of a local \<^verbatim>\<open>CIFS_BLOCK_TYPE\<close> and of memory
  returned by \<^verbatim>\<open>malloc\<close>. Allocations whose result the source does not test are taken
  to succeed, and \<^verbatim>\<open>cifsCheckIOError\<close>, which ends the process on a device error, is taken
  to find none.
\<close>

record environment =
  fuseContext :: fuse_context
  tv_sec :: "64 word"
  malloc_succeeds :: bool
  fopen_succeeds :: bool
  uninitialised_descriptor :: CIFS_FILE_DESCRIPTOR_TYPE
  uninitialised_bytes :: "nat \<Rightarrow> byte"

text \<open>
  The globals: the content of the volume file behind \<^verbatim>\<open>cifsVolume\<close>, the context behind
  \<^verbatim>\<open>cifsContext\<close>, and the file mode creation mask of the process, which \<^verbatim>\<open>umask()\<close>
  replaces by the permission bits (\<open>0777\<close>, that is \<open>0x1FF\<close>) of its argument, returning
  the old one.
\<close>

type_synonym volume = "CIFS_INDEX_TYPE \<Rightarrow> CIFS_BLOCK_TYPE option"

record cifs_state =
  cifsVolume :: volume
  cifsContext :: CIFS_CONTEXT_TYPE
  processUmask :: "32 word"

subsection \<open>Block input and output\<close>

definition cifsWriteBlock :: "volume \<Rightarrow> CIFS_BLOCK_TYPE \<Rightarrow> CIFS_INDEX_TYPE \<Rightarrow> volume" where
  "cifsWriteBlock vol content blockNumber = vol(blockNumber \<mapsto> content)"

definition cifsReadBlock :: "volume \<Rightarrow> CIFS_INDEX_TYPE \<Rightarrow> CIFS_BLOCK_TYPE option" where
  "cifsReadBlock vol blockNumber = vol blockNumber"

text \<open>
  \<^verbatim>\<open>(CIFS_SUPERBLOCK_TYPE*) cifsReadBlock(CIFS_SUPERBLOCK_INDEX)\<close>. The code casts
  whatever bytes \<^verbatim>\<open>fread\<close> left in the buffer; the model gives the superblock only
  where block 31 was written from a superblock, and \<open>Inl Uninterpreted\<close> otherwise.
\<close>

definition readSuperblock :: "volume \<Rightarrow> fault + CIFS_SUPERBLOCK_TYPE" where
  "readSuperblock vol =
     (case cifsReadBlock vol (word_of_nat CIFS_SUPERBLOCK_INDEX) of
        Some (SuperblockBlock sb) \<Rightarrow> Inr sb
      | _ \<Rightarrow> Inl Uninterpreted)"

definition memset :: "byte list \<Rightarrow> byte \<Rightarrow> nat \<Rightarrow> fault + byte list" where
  "memset buf c n =
     (if length buf < n then Inl OutOfBounds else Inr (replicate n c @ drop n buf))"

definition thenDo :: "fault + 'a \<Rightarrow> ('a \<Rightarrow> fault + 'b) \<Rightarrow> fault + 'b" where
  "thenDo r f = (case r of Inl e \<Rightarrow> Inl e | Inr x \<Rightarrow> f x)"

subsection \<open>cifsCreateFileSystem\<close>

text \<open>
  \<open>mask0\<close> is the file mode creation mask of the process when the call starts;
  \<^verbatim>\<open>fopen(cifsFileName, "w+")\<close> empties the volume file.
\<close>

text \<open>
  The loop that copies the in-memory bitvector to the volume,
  \<^verbatim>\<open>for (i = 0; i < CIFS_SUPERBLOCK_INDEX; i++) { block[j] = bitvector[i * CIFS_BLOCK_SIZE + j] ...\<close>
\<close>

definition bitvectorBlock :: "byte list \<Rightarrow> nat \<Rightarrow> fault + CIFS_BLOCK_TYPE" where
  "bitvectorBlock bv i =
     (if length bv < i * CIFS_BLOCK_SIZE + CIFS_BLOCK_SIZE then Inl OutOfBounds
      else Inr (BytesBlock (take CIFS_BLOCK_SIZE (drop (i * CIFS_BLOCK_SIZE) bv))))"

fun writeBitvector :: "byte list \<Rightarrow> nat list \<Rightarrow> volume \<Rightarrow> fault + volume" where
  "writeBitvector bv [] vol = Inr vol"
| "writeBitvector bv (i # is) vol =
     thenDo (bitvectorBlock bv i) (\<lambda>block.
       writeBitvector bv is (cifsWriteBlock vol block (word_of_nat i)))"

definition cifsCreateFileSystem ::
  "environment \<Rightarrow> 32 word \<Rightarrow> fault + CIFS_ERROR \<times> cifs_state option" where
  "cifsCreateFileSystem env mask0 =
     (if \<not> malloc_succeeds env then Inr (CIFS_ALLOC_ERROR, None)
      else if \<not> fopen_succeeds env then Inr (CIFS_ALLOC_ERROR, None)
      else
        thenDo (memset (replicate (CIFS_NUMBER_OF_BLOCKS div 8) 0) 0xFF
                  (CIFS_SUPERBLOCK_INDEX div 8)) (\<lambda>bv1.
        let sb0 = \<lparr> cifsNextUniqueIdentifier = CIFS_INITIAL_VALUE_OF_THE_UNIQUE_FILE_IDENTIFIER,
                    cifsNumberOfBlocks = word_of_nat (CIFS_NUMBER_OF_BLOCKS - 1),
                    cifsDataBlockSize = word_of_nat CIFS_BLOCK_SIZE,
                    cifsRootNodeIndex = word_of_nat (CIFS_SUPERBLOCK_INDEX + 1) \<rparr>
        in
        thenDo (cifsSetBit bv1 (word_of_nat CIFS_SUPERBLOCK_INDEX)) (\<lambda>bv2.
        let rootFolderBlock = DescriptorBlock CIFS_FOLDER_CONTENT_TYPE
              ((uninitialised_descriptor env)
                 \<lparr> identifier := cifsNextUniqueIdentifier sb0,
                   type := CIFS_FOLDER_CONTENT_TYPE,
                   name := ''/'',
                   accessRights := mask0,
                   owner := uid (fuseContext env),
                   size_fd := 0,
                   creationTime := tv_sec env,
                   lastAccessTime := tv_sec env,
                   lastModificationTime := tv_sec env,
                   block_ref := cifsRootNodeIndex sb0 + 1 \<rparr>);
            sb1 = sb0 \<lparr> cifsNextUniqueIdentifier := cifsNextUniqueIdentifier sb0 + 1 \<rparr>;
            rootFolderIndexBlock = IndexBlock CIFS_INDEX_CONTENT_TYPE
              (replicate CIFS_INDEX_SIZE CIFS_INVALID_INDEX);
            vol1 = cifsWriteBlock Map.empty rootFolderBlock (cifsRootNodeIndex sb1)
        in
        thenDo (cifsSetBit bv2 (cifsRootNodeIndex sb1)) (\<lambda>bv3.
        let vol2 = cifsWriteBlock vol1 rootFolderIndexBlock (cifsRootNodeIndex sb1 + 1)
        in
        thenDo (cifsSetBit bv3 (cifsRootNodeIndex sb1 + 1)) (\<lambda>bv4.
        let vol3 = cifsWriteBlock vol2 (SuperblockBlock sb1) (word_of_nat CIFS_SUPERBLOCK_INDEX)
        in
        thenDo (writeBitvector bv4 [0..<CIFS_SUPERBLOCK_INDEX] vol3) (\<lambda>vol4.
        let vol5 = cifsWriteBlock vol4 (BytesBlock (replicate CIFS_BLOCK_SIZE 0))
                     (word_of_nat (CIFS_NUMBER_OF_BLOCKS - 1))
        in
        Inr (CIFS_NO_ERROR,
             Some \<lparr> cifsVolume = vol5,
                    cifsContext = \<lparr> superblock = sb1, bitvector = bv4,
                                    registry = None, processList = None \<rparr>,
                    processUmask = umask (fuseContext env) AND 0x1FF \<rparr>)))))))"

subsection \<open>cifsMountFileSystem\<close>

text \<open>
  The function opens the volume, allocates a new context, reads the superblock and
  allocates \<^verbatim>\<open>cifsNumberOfBlocks / 8\<close> bytes for the bitvector. Reading the bitvector
  from the volume and traversing the volume to fill the registry are \<^verbatim>\<open>TODO\<close>
  comments; \<^verbatim>\<open>traverseDisk\<close> and \<^verbatim>\<open>addToHashTable\<close> have empty bodies. The bytes of
  the new bitvector are what \<^verbatim>\<open>malloc\<close> returned.
\<close>

definition cifsMountFileSystem ::
  "environment \<Rightarrow> cifs_state \<Rightarrow> fault + CIFS_ERROR \<times> cifs_state option" where
  "cifsMountFileSystem env st =
     (if \<not> malloc_succeeds env then Inr (CIFS_ALLOC_ERROR, None)
      else
        thenDo (readSuperblock (cifsVolume st)) (\<lambda>sb.
        Inr (CIFS_NO_ERROR,
             Some (st \<lparr> cifsContext :=
                      \<lparr> superblock = sb,
                        bitvector = map (uninitialised_bytes env)
                                      [0..<unat (cifsNumberOfBlocks sb) div 8],
                        registry = None, processList = None \<rparr> \<rparr>))))"

subsection \<open>cifsCreateFile\<close>

text \<open>
  The body fills a local block \<^verbatim>\<open>freeBlk\<close> and a local index block, reloads the
  superblock from the volume and returns \<^verbatim>\<open>CIFS_NO_ERROR\<close>; both parameters are unused.
  \<open>cifsCreateFile_freeBlk\<close> is the descriptor in \<^verbatim>\<open>freeBlk\<close>, which the function drops
  on return. Two statements are not modelled because they are not expressions of the
  language: \<^verbatim>\<open>freeBlk.type = CIFS_FILE_DESCRIPTOR_TYPE\<close> assigns a type name, and the
  assignment to \<^verbatim>\<open>block_ref\<close> reads a member \<^verbatim>\<open>freeInBlk\<close> that the superblock does not
  have, so \<^verbatim>\<open>block_ref\<close> keeps its indeterminate content. The lines after the closing
  brace of the function belong to no function.
\<close>

definition cifsCreateFile_freeBlk :: "environment \<Rightarrow> cifs_state \<Rightarrow> CIFS_FILE_DESCRIPTOR_TYPE" where
  "cifsCreateFile_freeBlk env st =
     (uninitialised_descriptor env)
       \<lparr> identifier := cifsNextUniqueIdentifier (superblock (cifsContext st)),
         type := CIFS_FILE_CONTENT_TYPE,
         name := ''file1'',
         accessRights := processUmask st,
         owner := uid (fuseContext env),
         size_fd := 0,
         creationTime := tv_sec env,
         lastAccessTime := tv_sec env,
         lastModificationTime := tv_sec env \<rparr>"

definition cifsCreateFile ::
  "environment \<Rightarrow> cifs_state \<Rightarrow> string \<Rightarrow> CIFS_CONTENT_TYPE \<Rightarrow> fault + CIFS_ERROR \<times> cifs_state" where
  "cifsCreateFile env st filePath ctype =
     (let sb0 = superblock (cifsContext st);
          context1 = (cifsContext st)
            \<lparr> superblock := sb0 \<lparr> cifsNextUniqueIdentifier := cifsNextUniqueIdentifier sb0 + 1 \<rparr> \<rparr>
      in
      thenDo (readSuperblock (cifsVolume st)) (\<lambda>sb.
      Inr (CIFS_NO_ERROR,
           st \<lparr> cifsContext := context1 \<lparr> superblock := sb \<rparr>,
                processUmask := umask (fuseContext env) AND 0x1FF \<rparr>)))"

subsection \<open>cifsWriteFile\<close>


subsection \<open>The start of main in test_cifs.c\<close>

text \<open>
  \<^verbatim>\<open>cifsCreateFileSystem("cifs.vol")\<close> followed, when it returned \<^verbatim>\<open>CIFS_NO_ERROR\<close>, by
  \<^verbatim>\<open>cifsMountFileSystem("cifs.vol")\<close>.
\<close>

definition createAndMount :: "environment \<Rightarrow> 32 word \<Rightarrow> fault + CIFS_ERROR \<times> cifs_state option" where
  "createAndMount env mask0 =
     thenDo (cifsCreateFileSystem env mask0) (\<lambda>created.
       case created of
         (CIFS_NO_ERROR, Some st) \<Rightarrow> cifsMountFileSystem env st
       | other \<Rightarrow> Inr other)"


subsection \<open>A sequence of create operations\<close>


section \<open>Properties\<close>

subsection \<open>The bit allocator: scanning\<close>

declare scanBits.simps [simp del]

lemma scanBytes_all_set:
  "(\<forall>k. i \<le> k \<and> k < length bv \<longrightarrow> bv ! k = 0xFF) \<Longrightarrow> scanBytes bv i = Inl OutOfBounds"
proof (induction bv i rule: scanBytes.induct)
  case (1 bv i)
  show ?case
  proof (cases "length bv \<le> i")
    case True
    then show ?thesis by simp
  next
    case False
    with "1.prems" have byte: "bv ! i = 0xFF" by simp
    have "scanBytes bv (i + 1) = Inl OutOfBounds"
      using False byte "1.prems" by (intro "1.IH") auto
    with False byte show ?thesis by simp
  qed
qed

lemma scanBytes_first:
  "i \<le> n \<Longrightarrow> n < length bv \<Longrightarrow> bv ! n \<noteq> 0xFF \<Longrightarrow>
   (\<forall>k. i \<le> k \<and> k < n \<longrightarrow> bv ! k = 0xFF) \<Longrightarrow> scanBytes bv i = Inr n"
proof (induction bv i rule: scanBytes.induct)
  case (1 bv i)
  show ?case
  proof (cases "i = n")
    case True
    with "1.prems" show ?thesis by simp
  next
    case False
    with "1.prems" have lt: "i < n" and byte: "bv ! i = 0xFF" by auto
    have "scanBytes bv (i + 1) = Inr n"
      using lt byte "1.prems" by (intro "1.IH") auto
    with lt byte "1.prems" show ?thesis by simp
  qed
qed

lemma drop_bit_0x80: "j < 8 \<Longrightarrow> drop_bit j (0x80 :: byte) = 2 ^ (7 - j)"
proof -
  assume "j < 8"
  then have "j = 0 \<or> j = 1 \<or> j = 2 \<or> j = 3 \<or> j = 4 \<or> j = 5 \<or> j = 6 \<or> j = 7"
    by arith
  then show ?thesis
    by (elim disjE) (simp_all add: drop_bit_eq_div)
qed

lemma drop_bit_0x80_zero: "8 \<le> j \<Longrightarrow> drop_bit j (0x80 :: byte) = 0"
  by (simp add: drop_bit_word_beyond)

lemma bitAt_iff: "bitAt b j \<longleftrightarrow> j < 8 \<and> bit b (7 - j)"
proof (cases "j < 8")
  case True
  then show ?thesis
    by (simp add: bitAt_def drop_bit_0x80 and_exp_eq_0_iff_not_bit)
next
  case False
  then show ?thesis
    by (simp add: bitAt_def drop_bit_0x80_zero)
qed

lemma byte_not_full: 
  fixes b :: byte
  assumes "b \<noteq> 0xFF"
  shows "\<exists>j<8. \<not> bitAt b j"
proof (rule ccontr)
  assume "\<not> (\<exists>j<8. \<not> bitAt b j)"
  then have all: "\<And>j. j < 8 \<Longrightarrow> bit b (7 - j)"
    by (simp add: bitAt_iff)
  have "bit b n" if "n < 8" for n
    using all [of "7 - n"] that by simp
  then have "b = -1"
    by (intro bit_word_eqI) simp
  with assms show False by simp
qed

lemma scanBits_first:
  "k \<le> j \<Longrightarrow> j < 8 \<Longrightarrow> \<not> bitAt b j \<Longrightarrow> (\<forall>m. k \<le> m \<and> m < j \<longrightarrow> bitAt b m) \<Longrightarrow>
   scanBits b (drop_bit k 0x80) w = w + word_of_nat (j - k)"
proof (induction "j - k" arbitrary: k w)
  case 0
  then have "k = j" by simp
  with "0.prems" show ?case by (subst scanBits.simps) (simp add: bitAt_def)
next
  case (Suc d)
  then have lt: "k < j" by simp
  with Suc.prems have "bitAt b k" by simp
  then have "b AND drop_bit k 0x80 \<noteq> 0" by (simp add: bitAt_def)
  then have step: "scanBits b (drop_bit k 0x80) w = scanBits b (drop_bit 1 (drop_bit k 0x80)) (w + 1)"
    by (subst scanBits.simps) simp
  have shift: "drop_bit 1 (drop_bit k (0x80 :: byte)) = drop_bit (Suc k) 0x80"
    by (simp only: drop_bit_drop_bit) simp
  have "scanBits b (drop_bit (Suc k) 0x80) (w + 1) = (w + 1) + word_of_nat (j - Suc k)"
    using Suc.hyps(2) lt Suc.prems by (intro Suc.hyps(1)) auto
  also have "\<dots> = w + word_of_nat (Suc (j - Suc k))"
    by simp
  also have "Suc (j - Suc k) = j - k"
    using lt by simp
  finally show ?case using step shift by simp
qed

lemma least_witness:
  fixes P :: "nat \<Rightarrow> bool"
  assumes "\<exists>n. P n"
  shows "\<exists>n. P n \<and> (\<forall>k<n. \<not> P k)"
proof -
  have "P (LEAST n. P n)"
    using assms by (rule LeastI_ex)
  moreover have "\<forall>k<LEAST n. P n. \<not> P k"
    using not_less_Least by blast
  ultimately show ?thesis by blast
qed

lemma first_free_byte:
  assumes "\<exists>n<length bv. bv ! n \<noteq> (0xFF :: byte)"
  shows "\<exists>n<length bv. bv ! n \<noteq> 0xFF \<and> (\<forall>k<n. bv ! k = 0xFF)"
proof -
  from assms have "\<exists>n. n < length bv \<and> bv ! n \<noteq> 0xFF" by blast
  from least_witness [OF this] obtain n where
    n: "n < length bv" "bv ! n \<noteq> 0xFF" and least: "\<forall>k<n. \<not> (k < length bv \<and> bv ! k \<noteq> 0xFF)"
    by blast
  from n(1) least have "\<forall>k<n. bv ! k = 0xFF" by auto
  with n show ?thesis by blast
qed

lemma first_free_bit:
  assumes "b \<noteq> (0xFF :: byte)"
  shows "\<exists>j<8. \<not> bitAt b j \<and> (\<forall>m<j. bitAt b m)"
proof -
  from byte_not_full [OF assms] have "\<exists>j. j < 8 \<and> \<not> bitAt b j" by blast
  from least_witness [OF this] obtain j where
    j: "j < 8" "\<not> bitAt b j" and least: "\<forall>m<j. \<not> (m < 8 \<and> \<not> bitAt b m)"
    by blast
  from j(1) least have "\<forall>m<j. bitAt b m" by auto
  with j show ?thesis by blast
qed

lemma cifsFindFreeBlock_first:
  assumes "n < length bv" "bv ! n \<noteq> 0xFF" "\<forall>k<n. bv ! k = 0xFF"
    and "j < 8" "\<not> bitAt (bv ! n) j" "\<forall>m<j. bitAt (bv ! n) m"
  shows "cifsFindFreeBlock bv = Inr (word_of_nat (n * 8 + j))"
proof -
  have bytes: "scanBytes bv 0 = Inr n"
    using assms(1-3) by (intro scanBytes_first) auto
  have "scanBits (bv ! n) (drop_bit 0 0x80) 0 = 0 + word_of_nat (j - 0)"
    using assms(4-6) by (intro scanBits_first) auto
  then have bits: "scanBits (bv ! n) 0x80 0 = word_of_nat j"
    by simp
  have "unat (word_of_nat j :: CIFS_INDEX_TYPE) = j"
    using assms(4) by (simp add: unat_of_nat)
  with bytes bits show ?thesis
    by (simp add: cifsFindFreeBlock_def)
qed

lemma block_index_fits:
  assumes "n < length bv" "length bv \<le> 8192" "j < 8"
  shows "unat (word_of_nat (n * 8 + j) :: CIFS_INDEX_TYPE) = n * 8 + j"
proof -
  from assms have "n * 8 + j < 65536" by arith
  then show ?thesis by (simp only: unat_of_nat) simp
qed

lemma cifsFindFreeBlock_all_set:
  assumes "\<forall>k<length bv. bv ! k = 0xFF"
  shows "cifsFindFreeBlock bv = Inl OutOfBounds"
proof -
  have "scanBytes bv 0 = Inl OutOfBounds"
    using assms by (intro scanBytes_all_set) simp
  then show ?thesis by (simp add: cifsFindFreeBlock_def)
qed

lemma bit_index_split:
  fixes bitIndex :: CIFS_INDEX_TYPE
  shows "unat (bitIndex div 8) = unat bitIndex div 8" "unat (bitIndex mod 8) = unat bitIndex mod 8"
  by (simp_all add: unat_div unat_mod)

lemma cifsSetBit_Inr:
  assumes "cifsSetBit bv bitIndex = Inr bv'"
  shows "unat bitIndex div 8 < length bv"
    and "bv' = bv[unat bitIndex div 8 :=
                  bv ! (unat bitIndex div 8) OR drop_bit (unat bitIndex mod 8) 0x80]"
  using assms by (auto simp: cifsSetBit_def Let_def bit_index_split split: if_splits)

lemma cifsSetBit_sets:
  assumes "cifsSetBit bv bitIndex = Inr bv'"
  shows "bitAt (bv' ! (unat bitIndex div 8)) (unat bitIndex mod 8)"
proof -
  let ?j = "unat bitIndex mod 8"
  have j: "?j < 8" by simp
  have "7 - ?j < 8" by arith
  then have "bit (2 ^ (7 - ?j) :: byte) (7 - ?j)"
    by (simp only: bit_exp_iff) simp
  then have "bit (bv ! (unat bitIndex div 8) OR drop_bit ?j (0x80 :: byte)) (7 - ?j)"
    by (simp only: drop_bit_0x80 [OF j] bit_or_iff) simp
  then have "bitAt (bv ! (unat bitIndex div 8) OR drop_bit ?j (0x80 :: byte)) ?j"
    using j by (simp only: bitAt_iff)
  with cifsSetBit_Inr [OF assms] show ?thesis by simp
qed

lemma bit_index_in_range:
  fixes bitIndex :: CIFS_INDEX_TYPE
  shows "length bv \<le> unat (bitIndex div 8) \<longleftrightarrow> \<not> unat bitIndex div 8 < length bv"
  by (simp add: bit_index_split not_less)

lemma wrapped_bitvector_scan:
  "cifsFindFreeBlock (replicate 8192 0xFF @ [0x00]) = Inr 0"
proof -
  let ?bv = "replicate 8192 (0xFF :: byte) @ [0x00]"
  have "cifsFindFreeBlock ?bv = Inr (word_of_nat (8192 * 8 + 0))"
    by (rule cifsFindFreeBlock_first) (simp_all add: nth_append bitAt_def)
  then show ?thesis by simp
qed

subsection \<open>The bit allocator: claims\<close>

text \<open>
  C3: for every bitvector in which every bit is set, cifsFindFreeBlock fails with the
  AllocError result instead of returning a block index. The code does not: on the
  bitvector of a full volume (\<open>CIFS_NUMBER_OF_BLOCKS / 8\<close> bytes, all \<open>0xFF\<close>) the scan
  for a byte other than \<open>0xFF\<close> leaves the array, and there is no error result.
\<close>

theorem cifsFindFreeBlock_full_volume:
  "cifsFindFreeBlock (replicate (CIFS_NUMBER_OF_BLOCKS div 8) 0xFF) = Inl OutOfBounds"
  by (rule cifsFindFreeBlock_all_set) simp




text \<open>
  C5: for every bitvector and bit index \<open>i\<close> such that a free bit is left after
  \<open>cifsSetBit(bitvector, i)\<close>, cifsFindFreeBlock on the updated bitvector does not return
  \<open>i\<close> while bit \<open>i\<close> is set. As amended: this holds whenever a free bit is left among
  the first 65536 bits (the first 8192 bytes) of the updated bitvector.
\<close>

theorem cifsSetBit_not_found_free_in_range:
  assumes "cifsSetBit bv bitIndex = Inr bv'"
    and "\<exists>n<length bv'. n < 8192 \<and> bv' ! n \<noteq> 0xFF"
  shows "\<exists>r. cifsFindFreeBlock bv' = Inr r \<and> r \<noteq> bitIndex
           \<and> bitAt (bv' ! (unat bitIndex div 8)) (unat bitIndex mod 8)"
proof -
  from assms(2) obtain n where n: "n < length bv'" "n < 8192" "bv' ! n \<noteq> 0xFF"
    by blast
  then have "\<exists>n<length bv'. bv' ! n \<noteq> 0xFF" by blast
  from first_free_byte [OF this] obtain i where
    i: "i < length bv'" "bv' ! i \<noteq> 0xFF" "\<forall>k<i. bv' ! k = 0xFF"
    by blast
  have "i \<le> n"
  proof (rule ccontr)
    assume "\<not> i \<le> n"
    with i(3) have "bv' ! n = 0xFF" by simp
    with n(3) show False by simp
  qed
  with n(2) have small: "i < 8192" by simp
  from first_free_bit [OF i(2)] obtain j where
    j: "j < 8" "\<not> bitAt (bv' ! i) j" "\<forall>m<j. bitAt (bv' ! i) m"
    by blast
  let ?r = "word_of_nat (i * 8 + j) :: CIFS_INDEX_TYPE"
  have found: "cifsFindFreeBlock bv' = Inr ?r"
    using i j by (rule cifsFindFreeBlock_first)
  from small j(1) have "i * 8 + j < 65536" by arith
  then have r: "unat ?r = i * 8 + j"
    by (simp only: unat_of_nat) simp
  have set: "bitAt (bv' ! (unat bitIndex div 8)) (unat bitIndex mod 8)"
    using assms(1) by (rule cifsSetBit_sets)
  have "?r \<noteq> bitIndex"
  proof
    assume "?r = bitIndex"
    with r have "unat bitIndex = i * 8 + j" by simp
    with j(1) have "unat bitIndex div 8 = i" "unat bitIndex mod 8 = j" by simp_all
    with set j(2) show False by simp
  qed
  with found set show ?thesis by blast
qed

theorem cifsSetBit_not_found_free_in_range_witness:
  "cifsSetBit [0xFF, 0xFF, 0xFF, 0xFF, 0xBF, 0xF7] 33 = Inr [0xFF, 0xFF, 0xFF, 0xFF, 0xFF, 0xF7]
   \<and> (\<exists>n<length [0xFF, 0xFF, 0xFF, 0xFF, 0xFF, 0xF7 :: byte].
          n < 8192 \<and> [0xFF, 0xFF, 0xFF, 0xFF, 0xFF, 0xF7 :: byte] ! n \<noteq> 0xFF)
   \<and> (\<exists>r. cifsFindFreeBlock [0xFF, 0xFF, 0xFF, 0xFF, 0xFF, 0xF7] = Inr r \<and> r \<noteq> 33
          \<and> bitAt ([0xFF, 0xFF, 0xFF, 0xFF, 0xFF, 0xF7] ! (unat (33 :: CIFS_INDEX_TYPE) div 8))
                (unat (33 :: CIFS_INDEX_TYPE) mod 8))
   \<and> cifsFindFreeBlock [0xFF, 0xFF, 0xFF, 0xFF, 0xFF, 0xF7] = Inr 44"
proof -
  have h1: "cifsSetBit [0xFF, 0xFF, 0xFF, 0xFF, 0xBF, 0xF7] 33
      = Inr [0xFF, 0xFF, 0xFF, 0xFF, 0xFF, 0xF7]"
    by code_simp
  have h2: "\<exists>n<length [0xFF, 0xFF, 0xFF, 0xFF, 0xFF, 0xF7 :: byte].
      n < 8192 \<and> [0xFF, 0xFF, 0xFF, 0xFF, 0xFF, 0xF7 :: byte] ! n \<noteq> 0xFF"
    by (intro exI [of _ 5]) simp
  have "cifsFindFreeBlock [0xFF, 0xFF, 0xFF, 0xFF, 0xFF, 0xF7] = Inr 44"
    by code_simp
  with cifsSetBit_not_found_free_in_range [OF h1 h2] h1 h2 show ?thesis
    by blast
qed

text \<open>
  The claim as first stated fails on a bitvector of 8193 bytes whose first 8192 bytes are
  \<open>0xFF\<close>, with \<open>i = 0\<close>: the only free bits lie behind bit 65535, and the search
  returns 0, the bit just set.
\<close>

theorem cifsSetBit_found_again_counterexample:
  "cifsSetBit (replicate 8192 0xFF @ [0x00]) 0 = Inr (replicate 8192 0xFF @ [0x00])
   \<and> (replicate 8192 0xFF @ [0x00 :: byte]) ! 8192 \<noteq> 0xFF
   \<and> bitAt ((replicate 8192 0xFF @ [0x00 :: byte]) ! (unat (0 :: CIFS_INDEX_TYPE) div 8))
         (unat (0 :: CIFS_INDEX_TYPE) mod 8)
   \<and> cifsFindFreeBlock (replicate 8192 0xFF @ [0x00]) = Inr 0"
proof -
  have "(replicate 8192 (0xFF :: byte) @ [0x00]) [0 := 0xFF] = replicate 8192 0xFF @ [0x00]"
    by (rule nth_equalityI) (simp_all add: nth_list_update nth_append)
  then have "cifsSetBit (replicate 8192 0xFF @ [0x00]) 0 = Inr (replicate 8192 0xFF @ [0x00])"
    by (simp add: cifsSetBit_def Let_def nth_append)
  with wrapped_bitvector_scan show ?thesis
    by (simp add: nth_append bitAt_def)
qed

text \<open>
  C10: each of cifsSetBit, cifsClearBit and cifsFlipBit changes at most the byte at
  offset \<open>bitIndex / 8\<close> of the bitvector and leaves every other byte as it was. When
  that offset lies outside the array the call writes no byte of the bitvector at all
  (the access is undefined in C).
\<close>

theorem bit_operations_frame:
  "if unat bitIndex div 8 < length bv
   then \<exists>s c f. cifsSetBit bv bitIndex = Inr s
          \<and> cifsClearBit bv bitIndex = Inr c
          \<and> cifsFlipBit bv bitIndex = Inr f
          \<and> length s = length bv \<and> length c = length bv
          \<and> length f = length bv
          \<and> (\<forall>k<length bv. k \<noteq> unat bitIndex div 8 \<longrightarrow>
                s ! k = bv ! k \<and> c ! k = bv ! k \<and> f ! k = bv ! k)
   else cifsSetBit bv bitIndex = Inl OutOfBounds
          \<and> cifsClearBit bv bitIndex = Inl OutOfBounds
          \<and> cifsFlipBit bv bitIndex = Inl OutOfBounds"
proof (cases "unat bitIndex div 8 < length bv")
  case True
  then have "\<not> length bv \<le> unat (bitIndex div 8)"
    by (simp add: bit_index_in_range)
  then show ?thesis
    using True
    by (simp add: cifsSetBit_def cifsClearBit_def cifsFlipBit_def Let_def bit_index_split)
next
  case False
  then have "length bv \<le> unat (bitIndex div 8)"
    by (simp add: bit_index_in_range)
  then show ?thesis
    using False by (simp add: cifsSetBit_def cifsClearBit_def cifsFlipBit_def Let_def)
qed

theorem bit_operations_frame_witness:
  "unat (9 :: CIFS_INDEX_TYPE) div 8 < length [0xFF, 0x00, 0x0F :: byte]
   \<and> cifsSetBit [0xFF, 0x00, 0x0F] 9 = Inr [0xFF, 0x40, 0x0F]
   \<and> cifsClearBit [0xFF, 0x00, 0x0F] 9 = Inr [0xFF, 0x00, 0x0F]
   \<and> cifsFlipBit [0xFF, 0x00, 0x0F] 9 = Inr [0xFF, 0x40, 0x0F]
   \<and> \<not> unat (24 :: CIFS_INDEX_TYPE) div 8 < length [0xFF, 0x00, 0x0F :: byte]
   \<and> cifsSetBit [0xFF, 0x00, 0x0F] 24 = Inl OutOfBounds"
  using bit_operations_frame [of 9 "[0xFF, 0x00, 0x0F]"]
    bit_operations_frame [of 24 "[0xFF, 0x00, 0x0F]"]
  by (simp add: cifsSetBit_def cifsClearBit_def cifsFlipBit_def Let_def)

subsection \<open>Creating and mounting a volume\<close>

lemma geometry:
  "CIFS_SUPERBLOCK_INDEX = 31" "CIFS_NUMBER_OF_BLOCKS div 8 = 8191" "CIFS_SUPERBLOCK_INDEX div 8 = 3"
  by (simp_all add: CIFS_SUPERBLOCK_INDEX_def CIFS_NUMBER_OF_BLOCKS_def CIFS_BLOCK_SIZE_def)

lemma fresh_bitvector:
  "replicate 8191 (0 :: byte) = 0 # 0 # 0 # 0 # 0 # replicate 8186 0"
proof -
  have "replicate (5 + 8186) (0 :: byte) = replicate 5 0 @ replicate 8186 0"
    by (rule replicate_add)
  moreover have "replicate 5 (0 :: byte) = [0, 0, 0, 0, 0]"
    by (simp add: numeral_eq_Suc)
  ultimately show ?thesis
    by simp
qed

lemma memset_bitvector:
  "memset (0 # 0 # 0 # 0 # 0 # rest) 0xFF 3 = Inr (0xFF # 0xFF # 0xFF # 0 # 0 # rest)"
  by (simp add: memset_def numeral_eq_Suc)

lemma setBit_31:
  "cifsSetBit (0xFF # 0xFF # 0xFF # 0 # 0 # rest) 31 = Inr (0xFF # 0xFF # 0xFF # 0x01 # 0 # rest)"
  by (simp add: cifsSetBit_def Let_def)

lemma setBit_32:
  "cifsSetBit (0xFF # 0xFF # 0xFF # 0x01 # 0 # rest) 32
     = Inr (0xFF # 0xFF # 0xFF # 0x01 # 0x80 # rest)"
  by (simp add: cifsSetBit_def Let_def)

lemma setBit_33:
  "cifsSetBit (0xFF # 0xFF # 0xFF # 0x01 # 0x80 # rest) 33
     = Inr (0xFF # 0xFF # 0xFF # 0x01 # 0xC0 # rest)"
  by (simp add: cifsSetBit_def Let_def)

lemma writeBitvector_ok:
  assumes "\<forall>i\<in>set is. i * CIFS_BLOCK_SIZE + CIFS_BLOCK_SIZE \<le> length bv"
  shows "\<exists>vol'. writeBitvector bv is vol = Inr vol'
           \<and> (\<forall>k. k \<notin> word_of_nat ` set is \<longrightarrow> vol' k = vol k)"
  using assms
proof (induction "is" arbitrary: vol)
  case Nil
  then show ?case by simp
next
  case (Cons i "is")
  from Cons.prems have block: "bitvectorBlock bv i
      = Inr (BytesBlock (take CIFS_BLOCK_SIZE (drop (i * CIFS_BLOCK_SIZE) bv)))"
    by (simp add: bitvectorBlock_def)
  let ?vol = "cifsWriteBlock vol (BytesBlock (take CIFS_BLOCK_SIZE (drop (i * CIFS_BLOCK_SIZE) bv)))
                (word_of_nat i)"
  from Cons.prems have "\<forall>i\<in>set is. i * CIFS_BLOCK_SIZE + CIFS_BLOCK_SIZE \<le> length bv"
    by simp
  from Cons.IH [OF this, of ?vol] obtain vol' where
    vol': "writeBitvector bv is ?vol = Inr vol'"
      "\<forall>k. k \<notin> word_of_nat ` set is \<longrightarrow> vol' k = ?vol k"
    by blast
  have "writeBitvector bv (i # is) vol = Inr vol'"
    using block vol'(1) by (simp add: thenDo_def)
  moreover have "\<forall>k. k \<notin> word_of_nat ` set (i # is) \<longrightarrow> vol' k = vol k"
    using vol'(2) by (simp add: cifsWriteBlock_def)
  ultimately show ?case by blast
qed

lemma writeBitvector_blocks:
  assumes "writeBitvector bv is vol = Inr vol'"
  shows "vol' k = vol k \<or> (\<exists>bytes. vol' k = Some (BytesBlock bytes))"
  using assms
proof (induction "is" arbitrary: vol)
  case Nil
  then show ?case by simp
next
  case (Cons i "is")
  from Cons.prems obtain block where
    block: "bitvectorBlock bv i = Inr block"
    and rest: "writeBitvector bv is (cifsWriteBlock vol block (word_of_nat i)) = Inr vol'"
    by (auto simp: thenDo_def split: sum.splits)
  from block obtain bytes where "block = BytesBlock bytes"
    by (auto simp: bitvectorBlock_def split: if_splits)
  with Cons.IH [OF rest] show ?case
    by (auto simp: cifsWriteBlock_def split: if_splits)
qed

lemma small_block_numbers:
  assumes "(k :: CIFS_INDEX_TYPE) \<in> word_of_nat ` set [0..<31]"
  shows "unat k < 31"
proof -
  from assms obtain i where "i < 31" "k = word_of_nat i" by auto
  then show ?thesis by (simp add: unat_of_nat)
qed

lemma cifsCreateFileSystem_state:
  fixes env :: environment and mask0 :: "32 word"
  defines "sb \<equiv> \<lparr> cifsNextUniqueIdentifier = 1, cifsNumberOfBlocks = 65534,
                    cifsDataBlockSize = 256, cifsRootNodeIndex = 32 \<rparr>"
  defines "root \<equiv> (uninitialised_descriptor env)
                 \<lparr> identifier := 0, type := CIFS_FOLDER_CONTENT_TYPE, name := ''/'',
                   accessRights := mask0, owner := uid (fuseContext env), size_fd := 0,
                   creationTime := tv_sec env, lastAccessTime := tv_sec env,
                   lastModificationTime := tv_sec env, block_ref := 33 \<rparr>"
  shows "\<exists>vol. cifsCreateFileSystem (env \<lparr> malloc_succeeds := True, fopen_succeeds := True \<rparr>) mask0
           = Inr (CIFS_NO_ERROR,
                  Some \<lparr> cifsVolume = vol,
                         cifsContext = \<lparr> superblock = sb,
                           bitvector = [0xFF, 0xFF, 0xFF, 0x01, 0xC0] @ replicate 8186 0,
                           registry = None, processList = None \<rparr>,
                         processUmask = umask (fuseContext env) AND 0x1FF \<rparr>)
         \<and> vol 31 = Some (SuperblockBlock sb)
         \<and> vol 32 = Some (DescriptorBlock CIFS_FOLDER_CONTENT_TYPE root)
         \<and> (\<forall>b t d. vol b = Some (DescriptorBlock t d) \<longrightarrow> b = 32)"
proof -
  let ?bv = "[0xFF, 0xFF, 0xFF, 0x01, 0xC0] @ replicate 8186 (0 :: byte)"
  let ?vol3 = "cifsWriteBlock
      (cifsWriteBlock
         (cifsWriteBlock Map.empty (DescriptorBlock CIFS_FOLDER_CONTENT_TYPE root) 32)
         (IndexBlock CIFS_INDEX_CONTENT_TYPE (replicate CIFS_INDEX_SIZE CIFS_INVALID_INDEX)) 33)
      (SuperblockBlock sb) 31"
  have "\<forall>i\<in>set [0..<31]. i * CIFS_BLOCK_SIZE + CIFS_BLOCK_SIZE \<le> length ?bv"
    by (auto simp: CIFS_BLOCK_SIZE_def)
  from writeBitvector_ok [OF this, of ?vol3] obtain vol4 where
    vol4: "writeBitvector ?bv [0..<31] ?vol3 = Inr vol4"
      "\<forall>k. k \<notin> word_of_nat ` set [0..<31] \<longrightarrow> vol4 k = ?vol3 k"
    by blast
  have only32: "b = 32"
    if "cifsWriteBlock vol4 (BytesBlock (replicate CIFS_BLOCK_SIZE 0)) 65534 b
          = Some (DescriptorBlock t d)" for b t d
  proof -
    from that have "vol4 b = Some (DescriptorBlock t d)"
      by (simp add: cifsWriteBlock_def split: if_splits)
    with writeBitvector_blocks [OF vol4(1), of b]
    have "?vol3 b = Some (DescriptorBlock t d)" by auto
    then show ?thesis
      by (simp add: cifsWriteBlock_def split: if_splits)
  qed
  let ?vol5 = "cifsWriteBlock vol4 (BytesBlock (replicate CIFS_BLOCK_SIZE 0)) 65534"
  have out31: "(31 :: CIFS_INDEX_TYPE) \<notin> word_of_nat ` set [0..<31]"
    using small_block_numbers [of 31] by auto
  have out32: "(32 :: CIFS_INDEX_TYPE) \<notin> word_of_nat ` set [0..<31]"
    using small_block_numbers [of 32] by auto
  have "vol4 31 = Some (SuperblockBlock sb)"
    using vol4(2) out31 by (simp add: cifsWriteBlock_def)
  then have v31: "?vol5 31 = Some (SuperblockBlock sb)"
    by (simp add: cifsWriteBlock_def)
  have "vol4 32 = Some (DescriptorBlock CIFS_FOLDER_CONTENT_TYPE root)"
    using vol4(2) out32 by (simp add: cifsWriteBlock_def)
  then have v32: "?vol5 32 = Some (DescriptorBlock CIFS_FOLDER_CONTENT_TYPE root)"
    by (simp add: cifsWriteBlock_def)
  have "cifsCreateFileSystem (env \<lparr> malloc_succeeds := True, fopen_succeeds := True \<rparr>) mask0
      = Inr (CIFS_NO_ERROR,
             Some \<lparr> cifsVolume = ?vol5,
                    cifsContext = \<lparr> superblock = sb, bitvector = ?bv,
                      registry = None, processList = None \<rparr>,
                    processUmask = umask (fuseContext env) AND 0x1FF \<rparr>)"
    using vol4(1)
    by (simp add: cifsCreateFileSystem_def fresh_bitvector geometry memset_bitvector
        setBit_31 setBit_32 setBit_33 thenDo_def Let_def sb_def root_def
        CIFS_INITIAL_VALUE_OF_THE_UNIQUE_FILE_IDENTIFIER_def CIFS_NUMBER_OF_BLOCKS_def
        CIFS_BLOCK_SIZE_def)
  with v31 v32 only32 show ?thesis by blast
qed

lemma createAndMount_state:
  fixes env :: environment and mask0 :: "32 word"
  defines "sb \<equiv> \<lparr> cifsNextUniqueIdentifier = 1, cifsNumberOfBlocks = 65534,
                    cifsDataBlockSize = 256, cifsRootNodeIndex = 32 \<rparr>"
  defines "root \<equiv> (uninitialised_descriptor env)
                 \<lparr> identifier := 0, type := CIFS_FOLDER_CONTENT_TYPE, name := ''/'',
                   accessRights := mask0, owner := uid (fuseContext env), size_fd := 0,
                   creationTime := tv_sec env, lastAccessTime := tv_sec env,
                   lastModificationTime := tv_sec env, block_ref := 33 \<rparr>"
  shows "\<exists>st. createAndMount (env \<lparr> malloc_succeeds := True, fopen_succeeds := True \<rparr>) mask0
            = Inr (CIFS_NO_ERROR, Some st)
         \<and> superblock (cifsContext st) = sb
         \<and> length (bitvector (cifsContext st)) = 8191
         \<and> registry (cifsContext st) = None
         \<and> processList (cifsContext st) = None
         \<and> cifsVolume st 31 = Some (SuperblockBlock sb)
         \<and> cifsVolume st 32 = Some (DescriptorBlock CIFS_FOLDER_CONTENT_TYPE root)
         \<and> (\<forall>b t d. cifsVolume st b = Some (DescriptorBlock t d) \<longrightarrow> b = 32)
         \<and> processUmask st = umask (fuseContext env) AND 0x1FF"
proof -
  let ?env = "env \<lparr> malloc_succeeds := True, fopen_succeeds := True \<rparr>"
  from cifsCreateFileSystem_state [of env mask0] obtain vol where
    created: "cifsCreateFileSystem ?env mask0
      = Inr (CIFS_NO_ERROR,
             Some \<lparr> cifsVolume = vol,
                    cifsContext = \<lparr> superblock = sb,
                      bitvector = [0xFF, 0xFF, 0xFF, 0x01, 0xC0] @ replicate 8186 0,
                      registry = None, processList = None \<rparr>,
                    processUmask = umask (fuseContext env) AND 0x1FF \<rparr>)"
    and v31: "vol 31 = Some (SuperblockBlock sb)"
    and v32: "vol 32 = Some (DescriptorBlock CIFS_FOLDER_CONTENT_TYPE root)"
    and only32: "\<forall>b t d. vol b = Some (DescriptorBlock t d) \<longrightarrow> b = 32"
    unfolding sb_def root_def by blast
  have read: "readSuperblock vol = Inr sb"
    using v31 by (simp add: readSuperblock_def cifsReadBlock_def geometry)
  have "unat (cifsNumberOfBlocks sb) div 8 = 8191"
    by (simp add: sb_def)
  with created read v31 v32 only32 show ?thesis
    by (simp add: createAndMount_def cifsMountFileSystem_def thenDo_def)
qed

lemma cifsCreateFile_after_mount:
  assumes "cifsVolume st 31 = Some (SuperblockBlock sb)"
  shows "cifsCreateFile env st filePath ctype
     = Inr (CIFS_NO_ERROR,
            st \<lparr> cifsContext := (cifsContext st) \<lparr> superblock := sb \<rparr>,
                 processUmask := umask (fuseContext env) AND 0x1FF \<rparr>)"
  using assms
  by (simp add: cifsCreateFile_def readSuperblock_def cifsReadBlock_def geometry thenDo_def Let_def)


subsection \<open>The volume and the operations: claims\<close>

text \<open>
  C2: immediately after cifsCreateFileSystem succeeds, the bit of every block of the
  fixed metadata region (the bitvector blocks, the superblock, the root descriptor and
  the root index block) is 1 and every other bit is 0. The code does not reach this:
  \<^verbatim>\<open>memset(bitvector, 0xFF, CIFS_SUPERBLOCK_INDEX / 8)\<close> fills \<open>31 / 8 = 3\<close> bytes, the bits
  of blocks 0 to 23, so block 24, one of the 31 bitvector blocks, has bit 0 and is the
  block cifsFindFreeBlock hands out first.
\<close>

theorem cifsCreateFileSystem_leaves_bitvector_blocks_free:
  "\<exists>st. cifsCreateFileSystem (env \<lparr> malloc_succeeds := True, fopen_succeeds := True \<rparr>) mask0
           = Inr (CIFS_NO_ERROR, Some st)
       \<and> bitvector (cifsContext st) = [0xFF, 0xFF, 0xFF, 0x01, 0xC0] @ replicate 8186 0
       \<and> 24 < CIFS_SUPERBLOCK_INDEX
       \<and> \<not> bitAt (bitvector (cifsContext st) ! (24 div 8)) (24 mod 8)
       \<and> cifsFindFreeBlock (bitvector (cifsContext st)) = Inr 24"
proof -
  let ?bv = "[0xFF, 0xFF, 0xFF, 0x01, 0xC0] @ replicate 8186 (0 :: byte)"
  have free: "\<not> bitAt (?bv ! (24 div 8)) (24 mod 8)"
    by (simp add: bitAt_def)
  have full: "\<forall>k<3. ?bv ! k = 0xFF"
  proof (intro allI impI)
    fix k :: nat
    assume "k < 3"
    then have "k = 0 \<or> k = 1 \<or> k = 2" by arith
    then show "?bv ! k = 0xFF" by auto
  qed
  have "cifsFindFreeBlock ?bv = Inr (word_of_nat (3 * 8 + 0))"
    using full by (intro cifsFindFreeBlock_first) (simp_all add: bitAt_def)
  then have found: "cifsFindFreeBlock ?bv = Inr 24"
    by simp
  from cifsCreateFileSystem_state [of env mask0] free found show ?thesis
    by (auto simp: geometry)
qed

text \<open>
  C7: cifsMountFileSystem fills the registry with an entry for every descriptor of the
  volume, parents before children. The code does not: after mounting the volume that
  cifsCreateFileSystem wrote, whose root descriptor is in block 32, the context has no
  registry at all.
\<close>

theorem cifsMountFileSystem_registry_not_populated:
  "\<exists>st root. createAndMount (env \<lparr> malloc_succeeds := True, fopen_succeeds := True \<rparr>) mask0
           = Inr (CIFS_NO_ERROR, Some st)
       \<and> cifsRootNodeIndex (superblock (cifsContext st)) = 32
       \<and> cifsVolume st 32 = Some (DescriptorBlock CIFS_FOLDER_CONTENT_TYPE root)
       \<and> name root = ''/''
       \<and> registry (cifsContext st) = None"
  using createAndMount_state [of env mask0] by auto

text \<open>
  C8: cifsCreateFile returns CIFS_OPEN_ERROR, and creates nothing, when the target
  folder is not in the open-file list of the calling process. The code does not: on a
  freshly mounted volume, where no process list exists, the call returns
  CIFS_NO_ERROR.
\<close>

theorem cifsCreateFile_without_open_folder:
  "\<exists>st st'. createAndMount (env \<lparr> malloc_succeeds := True, fopen_succeeds := True \<rparr>) mask0
           = Inr (CIFS_NO_ERROR, Some st)
       \<and> processList (cifsContext st) = None
       \<and> cifsCreateFile (env \<lparr> malloc_succeeds := True, fopen_succeeds := True \<rparr>) st filePath ctype
           = Inr (CIFS_NO_ERROR, st')"
proof -
  from createAndMount_state [of env mask0] obtain st sb where
    "createAndMount (env \<lparr> malloc_succeeds := True, fopen_succeeds := True \<rparr>) mask0
       = Inr (CIFS_NO_ERROR, Some st)"
    "processList (cifsContext st) = None"
    "cifsVolume st 31 = Some (SuperblockBlock sb)"
    by blast
  then show ?thesis
    using cifsCreateFile_after_mount by blast
qed




subsection \<open>hash\<close>

text \<open>
  C9: for every null-terminated string, hash returns a value strictly less than
  CIFS_REGISTRY_SIZE (65537), a valid slot index of the registry hash table.
\<close>

theorem hash_in_registry: "unat (hash str) < CIFS_REGISTRY_SIZE \<and> CIFS_REGISTRY_SIZE = 65537"
proof -
  have "unat (hash_loop 5381 str mod 65537) = unat (hash_loop 5381 str) mod 65537"
    by (simp add: unat_mod)
  then show ?thesis
    by (simp add: hash_def CIFS_REGISTRY_SIZE_def)
qed

end
